theory Spec2Isabelle
  imports Main "HOL-Library.Sublist"
begin

unbundle bit_operations_syntax

section \<open>C strings\<close>

text \<open>
  A C string is modelled by the list of its characters before the terminating NUL; the
  terminator itself is not stored. Reading through a pointer that has reached the end of
  the string yields NUL, which is what \<open>deref\<close> returns on the empty list. A pointer into
  a string is the suffix of the list that starts at the pointed character.
\<close>

definition NUL :: char where
  "NUL = CHR 0x00"

definition NEWLINE :: char where
  "NEWLINE = CHR 0x0A"

definition BACKSLASH :: char where
  "BACKSLASH = CHR 0x5C"

definition HASH :: char where
  "HASH = CHR ''#''"

definition deref :: "string \<Rightarrow> char" where
  "deref s = (case s of [] \<Rightarrow> NUL | c # _ \<Rightarrow> c)"

text \<open>\<open>isspace\<close> of the C locale: space, and the five controls from TAB to CR.\<close>

definition isspace :: "char \<Rightarrow> bool" where
  "isspace c = (c = CHR '' '' \<or> c = CHR 0x09 \<or> c = CHR 0x0A \<or> c = CHR 0x0B
                \<or> c = CHR 0x0C \<or> c = CHR 0x0D)"

text \<open>
  Modelled from the spec: \<open>skip_whitespace\<close> is declared in abrtlib.h and defined
  outside report.cpp. \<open>trim\<close> is specified to remove leading whitespace, which it does
  through it, so it returns the pointer to the first character that is not whitespace.
\<close>

fun skip_whitespace :: "string \<Rightarrow> string" where
  "skip_whitespace [] = []"
| "skip_whitespace (c # cs) = (if isspace c then skip_whitespace cs else c # cs)"

text \<open>\<open>strstr\<close>: the suffix of the haystack at the first occurrence of the needle.\<close>

fun strstr :: "string \<Rightarrow> string \<Rightarrow> string option" where
  "strstr [] needle = (if needle = [] then Some [] else None)"
| "strstr (c # cs) needle =
     (if prefix needle (c # cs) then Some (c # cs) else strstr cs needle)"

text \<open>\<open>strchrnul\<close>: the suffix at the first occurrence of the character, or the end.\<close>

fun strchrnul :: "string \<Rightarrow> char \<Rightarrow> string" where
  "strchrnul [] ch = []"
| "strchrnul (c # cs) ch = (if c = ch then c # cs else strchrnul cs ch)"

section \<open>Field codec (report.cpp, lines 26 to 139)\<close>

definition FIELD_SEP :: string where
  "FIELD_SEP = ''%----''"

text \<open>
  \<open>trim\<close>: the leading whitespace is skipped and the rest moved to the front; then the
  index \<open>i\<close> runs down from the length while the character below it is whitespace, and
  the string is cut at the index reached.
\<close>

fun trim_end :: "string \<Rightarrow> nat \<Rightarrow> nat" where
  "trim_end str 0 = 0"
| "trim_end str (Suc i) = (if \<not> isspace (str ! i) then Suc i else trim_end str i)"

definition trim :: "string \<Rightarrow> string" where
  "trim str = (let ibuf = skip_whitespace str in take (trim_end ibuf (length ibuf)) ibuf)"

text \<open>
  \<open>escape\<close>, first loop: the number of escape characters to insert, which sizes the
  result buffer (\<open>strlen(str) + 1 + count\<close>).
\<close>

fun escape_count :: "bool \<Rightarrow> string \<Rightarrow> nat" where
  "escape_count newline [] = 0"
| "escape_count newline (c # cs) =
     (if newline \<and> c = HASH then 1 else 0)
     + (if newline \<and> c = BACKSLASH \<and> deref cs = HASH then 1 else 0)
     + escape_count (c = NEWLINE) cs"

text \<open>\<open>escape\<close>, second loop: the copy, with a backslash put before a marker at a line start.\<close>

fun escape_copy :: "bool \<Rightarrow> string \<Rightarrow> string" where
  "escape_copy newline [] = []"
| "escape_copy newline (c # cs) =
     (if newline \<and> c = HASH then [BACKSLASH]
      else if newline \<and> c = BACKSLASH \<and> deref cs = HASH then [BACKSLASH]
      else [])
     @ c # escape_copy (c = NEWLINE) cs"

definition escape :: "string \<Rightarrow> string" where
  "escape str = escape_copy True str"

text \<open>
  \<open>remove_comments_and_unescape\<close>. The inner loop of the comment branch advances to the
  end of the line; \<open>skip_comment\<close> returns the pointer it stops at.
\<close>

fun skip_comment :: "string \<Rightarrow> string" where
  "skip_comment [] = []"
| "skip_comment (c # cs) = (if c \<noteq> NEWLINE then skip_comment cs else c # cs)"

function unescape_loop :: "bool \<Rightarrow> string \<Rightarrow> string" where
  "unescape_loop newline [] = []"
| "unescape_loop newline (c # cs) =
     (if newline \<and> c = HASH then
        (case skip_comment (c # cs) of
           [] \<Rightarrow> []
         | _ # rest \<Rightarrow> unescape_loop newline rest)
      else if newline \<and> c = BACKSLASH
              \<and> (deref cs = HASH \<or> (deref cs = BACKSLASH \<and> deref (tl cs) = HASH)) then
        (case cs of
           [] \<Rightarrow> []
         | d # ds \<Rightarrow> d # unescape_loop (d = NEWLINE) ds)
      else c # unescape_loop (c = NEWLINE) cs)"
  by pat_completeness auto
termination
proof (relation "measure (\<lambda>(newline, s). length s)")
  show "wf (measure (\<lambda>(newline, s). length s))" by simp
next
  fix newline :: bool and c :: char and cs :: string and x21 :: char and rest :: string
  assume "newline \<and> c = HASH" and sk: "skip_comment (c # cs) = x21 # rest"
  have "length (skip_comment s) \<le> length s" for s
    by (induction s) auto
  from this [of "c # cs"] sk
  show "((newline, rest), newline, c # cs) \<in> measure (\<lambda>(newline, s). length s)"
    by simp
qed auto

definition remove_comments_and_unescape :: "string \<Rightarrow> string" where
  "remove_comments_and_unescape str = unescape_loop True str"

section \<open>The report document (report.cpp, lines 141 to 289)\<close>

text \<open>
  A crash item is its content and its flags. The flags are a bit set in the source
  (\<open>value->flags & CD_FLAG_SYS\<close>); the bit values are declared in a header that is not
  among the sources, so the bit set is modelled as the set of the flags that are on. The
  crash data are a hash table from names to items, modelled as a map;
  \<open>get_crash_data_item_or_NULL\<close> is the lookup in it.
\<close>

datatype cd_flag = CD_FLAG_TXT | CD_FLAG_ISEDITABLE | CD_FLAG_SYS

record crash_item =
  content :: string
  flags :: "cd_flag set"

type_synonym crash_data_t = "string \<rightharpoonup> crash_item"

text \<open>
  The names of the items are macros of a header that is not among the sources. They are a
  parameter of the model: a record with one component for each macro that report.cpp uses.
\<close>

record filenames =
  FILENAME_COMMENT :: string
  FILENAME_REPRODUCE :: string
  FILENAME_BACKTRACE :: string
  FILENAME_DUPHASH :: string
  FILENAME_ARCHITECTURE :: string
  FILENAME_CMDLINE :: string
  FILENAME_COMPONENT :: string
  FILENAME_COREDUMP :: string
  FILENAME_EXECUTABLE :: string
  FILENAME_KERNEL :: string
  FILENAME_PACKAGE :: string
  FILENAME_REASON :: string
  FILENAME_RELEASE :: string
  FILENAME_RATING :: string
  CD_EVENTS :: string

text \<open>
  \<open>write_crash_report_field\<close>. The file \<open>fp\<close> is the text written to it so far. The
  function returns the file and the messages given to \<open>error_msg\<close>. Message catalogues
  are not modelled: \<open>_(s)\<close> is \<open>s\<close>.
\<close>

definition write_crash_report_field ::
  "string \<Rightarrow> crash_data_t \<Rightarrow> string \<Rightarrow> string \<Rightarrow> string \<times> string list" where
  "write_crash_report_field fp crash_data field description =
     (case crash_data field of
        None \<Rightarrow> (fp, [])
      | Some v \<Rightarrow>
          if CD_FLAG_SYS \<in> flags v then
            (fp, [''Cannot update field '' @ field @ '' because it is a system value''])
          else
            let fp1 = fp @ FIELD_SEP @ field @ [NEWLINE];
                fp2 = fp1 @ description @ [NEWLINE];
                fp3 = (if CD_FLAG_ISEDITABLE \<notin> flags v
                       then fp2 @ ''# This field is read only'' @ [NEWLINE] else fp2);
                escaped_content = escape (content v)
            in (fp3 @ escaped_content @ [NEWLINE], []))"

definition report_header :: string where
  "report_header =
     ''# Please check this report. Lines starting with '' @ [CHR 0x27] @ ''#'' @ [CHR 0x27]
       @ '' will be ignored.'' @ [NEWLINE]
     @ ''# Lines starting with '' @ [CHR 0x27] @ ''%----'' @ [CHR 0x27]
       @ '' separate fields, please do not delete them.'' @ [NEWLINE, NEWLINE]"

text \<open>The thirteen calls of \<open>write_crash_report\<close>, in their order: field and description.\<close>

definition report_descriptions :: "filenames \<Rightarrow> (string \<times> string) list" where
  "report_descriptions fn =
     [(FILENAME_COMMENT fn, ''# Describe the circumstances of this crash below''),
      (FILENAME_REPRODUCE fn, ''# How to reproduce the crash?''),
      (FILENAME_BACKTRACE fn, ''# Backtrace'' @ [NEWLINE]
         @ ''# Check that it does not contain any sensitive data (passwords, etc.)''),
      (FILENAME_DUPHASH fn, ''# DUPHASH''),
      (FILENAME_ARCHITECTURE fn, ''# Architecture''),
      (FILENAME_CMDLINE fn, ''# Command line''),
      (FILENAME_COMPONENT fn, ''# Component''),
      (FILENAME_COREDUMP fn, ''# Core dump''),
      (FILENAME_EXECUTABLE fn, ''# Executable''),
      (FILENAME_KERNEL fn, ''# Kernel version''),
      (FILENAME_PACKAGE fn, ''# Package''),
      (FILENAME_REASON fn, ''# Reason of crash''),
      (FILENAME_RELEASE fn, ''# Release string of the operating system'')]"

fun write_fields ::
  "crash_data_t \<Rightarrow> (string \<times> string) list \<Rightarrow> string \<times> string list \<Rightarrow> string \<times> string list" where
  "write_fields report [] st = st"
| "write_fields report ((field, description) # rest) (fp, log) =
     (let (fp', msgs) = write_crash_report_field fp report field description
      in write_fields report rest (fp', log @ msgs))"

definition write_crash_report :: "filenames \<Rightarrow> crash_data_t \<Rightarrow> string \<Rightarrow> string \<times> string list" where
  "write_crash_report fn report fp =
     write_fields report (report_descriptions fn) (fp @ report_header, [])"

text \<open>
  \<open>read_crash_report_field\<close> returns its result, the report as it leaves it, and the
  messages given to \<open>error_msg\<close>.
\<close>

definition read_crash_report_field ::
  "string \<Rightarrow> crash_data_t \<Rightarrow> string \<Rightarrow> int \<times> crash_data_t \<times> string list" where
  "read_crash_report_field text report field =
     (let separator = [NEWLINE] @ FIELD_SEP @ field @ [NEWLINE] in
      case strstr text separator of
        None \<Rightarrow> (0, report, [])
      | Some found \<Rightarrow>
          let textfield = drop (length separator) found;
              len = (case strstr textfield ([NEWLINE] @ FIELD_SEP) of
                       None \<Rightarrow> length textfield
                     | Some e \<Rightarrow> length textfield - length e)
          in case report field of
               None \<Rightarrow> (0, report, [''Field '' @ field @ '' not found''])
             | Some v \<Rightarrow>
                 if CD_FLAG_SYS \<in> flags v then
                   (0, report,
                    [''Cannot update field '' @ field @ '' because it is a system value''])
                 else if CD_FLAG_ISEDITABLE \<notin> flags v then (0, report, [])
                 else
                   let newvalue = trim (take len textfield);
                       oldvalue = trim (content v)
                   in if newvalue = oldvalue then (0, report, [])
                      else (1, report(field \<mapsto> v\<lparr>content := newvalue\<rparr>), []))"

text \<open>The thirteen calls of \<open>read_crash_report\<close>, in their order.\<close>

definition report_fields :: "filenames \<Rightarrow> string list" where
  "report_fields fn =
     [FILENAME_COMMENT fn, FILENAME_REPRODUCE fn, FILENAME_BACKTRACE fn, FILENAME_DUPHASH fn,
      FILENAME_ARCHITECTURE fn, FILENAME_CMDLINE fn, FILENAME_COMPONENT fn,
      FILENAME_COREDUMP fn, FILENAME_EXECUTABLE fn, FILENAME_KERNEL fn, FILENAME_PACKAGE fn,
      FILENAME_REASON fn, FILENAME_RELEASE fn]"

text \<open>Each call is \<open>result |= read_crash_report_field(text, report, field)\<close>.\<close>

fun read_fields ::
  "string \<Rightarrow> string list \<Rightarrow> int \<times> crash_data_t \<times> string list
     \<Rightarrow> int \<times> crash_data_t \<times> string list" where
  "read_fields text [] st = st"
| "read_fields text (field # rest) (result, report, log) =
     (let (r, report', msgs) = read_crash_report_field text report field
      in read_fields text rest (result OR r, report', log @ msgs))"

definition read_crash_report ::
  "filenames \<Rightarrow> crash_data_t \<Rightarrow> string \<Rightarrow> int \<times> crash_data_t \<times> string list" where
  "read_crash_report fn report text = read_fields text (report_fields fn) (0, report, [])"

text \<open>
  The values the macros have in abrt, for the examples; the theorems are about every
  assignment of names.
\<close>

definition abrt_filenames :: filenames where
  "abrt_filenames =
     \<lparr>FILENAME_COMMENT = ''comment'', FILENAME_REPRODUCE = ''reproduce'',
      FILENAME_BACKTRACE = ''backtrace'', FILENAME_DUPHASH = ''duphash'',
      FILENAME_ARCHITECTURE = ''architecture'', FILENAME_CMDLINE = ''cmdline'',
      FILENAME_COMPONENT = ''component'', FILENAME_COREDUMP = ''coredump'',
      FILENAME_EXECUTABLE = ''executable'', FILENAME_KERNEL = ''kernel'',
      FILENAME_PACKAGE = ''package'', FILENAME_REASON = ''reason'',
      FILENAME_RELEASE = ''release'', FILENAME_RATING = ''rating'',
      CD_EVENTS = ''Events''\<rparr>"

section \<open>What the program takes from outside\<close>

text \<open>
  The functions that report.cpp and user_settings.c call and that are not defined in
  them (the D-Bus calls, the library's configuration loader and string helpers, the
  system calls) are parameters of the model, collected in one record:
  \<^item> \<open>call_GetPluginSettings\<close>, \<open>call_Report\<close>: the calls to the daemon; a report status
    is the list of the entries of the returned map, each a name with its flag and message;
  \<^item> \<open>load_conf_file\<close>: the entries it loads from the file at a path, in the order in
    which the hash table yields them, or \<open>None\<close> when it returns false;
  \<^item> \<open>string_to_bool\<close>; \<open>xatou\<close>, which is \<open>None\<close> when it ends the process on a string
    that is not a number;
  \<^item> \<open>pw_dir\<close>: the home directory that \<open>getpwuid(geteuid())\<close> gives, if any;
  \<^item> \<open>uninit_answer\<close>: what the buffer \<open>answer\<close> of \<open>ask_yesno\<close> holds when \<open>fgets\<close>
    reads nothing, since the buffer is not initialised;
  \<^item> \<open>make_dir_recursive\<close>, \<open>fopen_w\<close> (whether \<open>fopen(path, "w")\<close> gives a file) and
    \<open>rename_rc\<close> (the value that \<open>rename\<close> returns: 0 when it succeeds);
  \<^item> \<open>HOME\<close> and \<open>concat_path_file\<close>, for the path of the settings file.
\<close>

type_synonym map_string_t = "string \<rightharpoonup> string"

type_synonym map_string_h = "(string \<times> string) list"

type_synonym report_status_t = "(string \<times> string \<times> string) list"

record externals =
  call_GetPluginSettings :: "string \<Rightarrow> map_string_t"
  call_Report :: "crash_data_t \<Rightarrow> string list \<Rightarrow> (string \<rightharpoonup> map_string_t) \<Rightarrow> report_status_t"
  load_conf_file :: "string \<Rightarrow> map_string_h option"
  string_to_bool :: "string \<Rightarrow> bool"
  xatou :: "string \<Rightarrow> nat option"
  pw_dir :: "string option"
  uninit_answer :: string
  make_dir_recursive :: "string \<Rightarrow> bool"
  fopen_w :: "string \<Rightarrow> bool"
  rename_rc :: "string \<Rightarrow> string \<Rightarrow> int"
  HOME :: "string option"
  concat_path_file :: "string option \<Rightarrow> string \<Rightarrow> string"

section \<open>Settings of the reporters (report.cpp, lines 500 to 556)\<close>

text \<open>The inner loop: every entry of the user's file is assigned into the plugin's map.\<close>

fun merge_user_settings :: "map_string_h \<Rightarrow> map_string_t \<Rightarrow> map_string_t" where
  "merge_user_settings [] v = v"
| "merge_user_settings ((key2, value2) # rest) v = merge_user_settings rest (v(key2 \<mapsto> value2))"

text \<open>
  The outer loop runs over the keys of the table of settings; each round changes the
  entry of its own key only.
\<close>

fun load_user_overrides ::
  "externals \<Rightarrow> string \<Rightarrow> string list \<Rightarrow> (string \<rightharpoonup> map_string_t) \<Rightarrow> (string \<rightharpoonup> map_string_t)" where
  "load_user_overrides ext homedir [] settings = settings"
| "load_user_overrides ext homedir (key # rest) settings =
     (case settings key of
        None \<Rightarrow> load_user_overrides ext homedir rest settings
      | Some v \<Rightarrow>
          (let path = homedir @ ''/.abrt/'' @ key @ ''.conf'' in
           case load_conf_file ext path of
             None \<Rightarrow> load_user_overrides ext homedir rest settings
           | Some single_plugin_settings \<Rightarrow>
               load_user_overrides ext homedir rest
                 (settings(key \<mapsto> merge_user_settings single_plugin_settings v))))"

text \<open>The first loop: the settings of the daemon for every reporter, as defaults.\<close>

fun load_system_settings ::
  "externals \<Rightarrow> string list \<Rightarrow> (string \<rightharpoonup> map_string_t) \<Rightarrow> (string \<rightharpoonup> map_string_t)" where
  "load_system_settings ext [] settings = settings"
| "load_system_settings ext (it # rest) settings =
     load_system_settings ext rest (settings(it \<mapsto> call_GetPluginSettings ext it))"

definition get_reporter_plugin_settings ::
  "externals \<Rightarrow> string list \<Rightarrow> (string \<rightharpoonup> map_string_t)" where
  "get_reporter_plugin_settings ext reporters =
     (let settings = load_system_settings ext reporters Map.empty in
      case pw_dir ext of
        None \<Rightarrow> settings
      | Some homedir \<Rightarrow> load_user_overrides ext homedir (remdups reporters) settings)"

section \<open>The reporters of a crash (report.cpp, lines 607 to 639)\<close>

text \<open>
  Modelled from the spec: \<open>get_crash_item_content_or_NULL\<close> is declared in a header and
  defined outside report.cpp; it gives the content of the named field when the report has
  it, and NULL otherwise (the rating is taken as 4 when the field is absent).
\<close>

definition get_crash_item_content_or_NULL :: "crash_data_t \<Rightarrow> string \<Rightarrow> string option" where
  "get_crash_item_content_or_NULL crash_data key = map_option content (crash_data key)"

definition report_rating :: "externals \<Rightarrow> filenames \<Rightarrow> crash_data_t \<Rightarrow> nat option" where
  "report_rating ext fn crash_data =
     (case get_crash_item_content_or_NULL crash_data (FILENAME_RATING fn) of
        None \<Rightarrow> Some 4
      | Some rating_str \<Rightarrow> xatou ext rating_str)"

text \<open>
  The loop over the lines of the events; \<open>strncmp\<close> with 6 compares the first six
  characters, and \<open>events[6]\<close> is read only when they are \<open>report\<close>.
\<close>

function report_events :: "string \<Rightarrow> string list" where
  "report_events [] = []"
| "report_events (c # cs) =
     (let events = c # cs;
          end = strchrnul events NEWLINE;
          found = (if take 6 events = ''report''
                      \<and> (deref (drop 6 events) = NUL \<or> deref (drop 6 events) = CHR ''_'')
                   then [take (length events - length end) events] else [])
      in case end of
           [] \<Rightarrow> found
         | _ # next \<Rightarrow> found @ report_events next)"
  by pat_completeness auto
termination
proof (relation "measure length")
  show "wf (measure length)" by simp
next
  fix c :: char and cs x xa :: string and xb :: "string list" and x21 :: char and x22 :: string
  assume "x = c # cs" and "xa = strchrnul x NEWLINE" and e: "xa = x21 # x22"
  have "length (strchrnul s ch) \<le> length s" for s ch
    by (induction s) auto
  from this [of x NEWLINE] e \<open>xa = strchrnul x NEWLINE\<close> \<open>x = c # cs\<close>
  show "(x22, c # cs) \<in> measure length" by simp
qed

definition report_reporters :: "filenames \<Rightarrow> crash_data_t \<Rightarrow> string list" where
  "report_reporters fn crash_data =
     (case get_crash_item_content_or_NULL crash_data (CD_EVENTS fn) of
        None \<Rightarrow> []
      | Some events \<Rightarrow> report_events events)"

section \<open>Interactive reporting (report.cpp, lines 427 to 484, 561 to 590, 664 to 711)\<close>

text \<open>
  The terminal: whether standard input is one, whether \<open>tcgetattr\<close> succeeds on it, and
  its ECHO flag. \<open>tcsetattr\<close> is taken to succeed (the source ends the process when it
  fails).
\<close>

record tty =
  isatty :: bool
  tcgetattr_ok :: bool
  echo :: bool

text \<open>
  The state that the loop over the reporters works on: the two counters, the text printed
  to standard output, the rest of standard input, the terminal, the table of the
  reporters' settings, and the lists of reporters that \<open>call_Report\<close> was called with.
\<close>

record session =
  plugins :: int
  errors :: int
  out :: string
  inp :: string
  terminal :: tty
  reporters_settings :: "string \<rightharpoonup> map_string_t"
  sent :: "string list list"

text \<open>
  \<open>fgets(buf, n, stdin)\<close> reads at most \<open>n - 1\<close> characters and stops behind a newline;
  at the end of the input it reads nothing and returns NULL.
\<close>

fun fgets_read :: "nat \<Rightarrow> string \<Rightarrow> string \<times> string" where
  "fgets_read 0 s = ([], s)"
| "fgets_read (Suc n) [] = ([], [])"
| "fgets_read (Suc n) (c # cs) =
     (if c = NEWLINE then ([c], cs)
      else (let (line, rest) = fgets_read n cs in (c # line, rest)))"

definition fgets :: "nat \<Rightarrow> string \<Rightarrow> (string \<times> string) option" where
  "fgets n stdin = (if stdin = [] then None else Some (fgets_read (n - 1) stdin))"

definition puts :: "string \<Rightarrow> session \<Rightarrow> session" where
  "puts line s = s\<lparr>out := out s @ line @ [NEWLINE]\<rparr>"

definition printf :: "string \<Rightarrow> session \<Rightarrow> session" where
  "printf str s = s\<lparr>out := out s @ str\<rparr>"

definition read_from_stdin :: "string \<Rightarrow> nat \<Rightarrow> session \<Rightarrow> string \<times> session" where
  "read_from_stdin question result_size s =
     (let s1 = printf question s in
      case fgets result_size (inp s1) of
        None \<Rightarrow> ([], s1)
      | Some (line, rest) \<Rightarrow> (takeWhile (\<lambda>c. c \<noteq> NEWLINE) line, s1\<lparr>inp := rest\<rparr>))"

definition ask_yesno :: "externals \<Rightarrow> string \<Rightarrow> session \<Rightarrow> bool \<times> session" where
  "ask_yesno ext question s =
     (let yes = ''y'';
          no = ''N'';
          s1 = printf (question @ '' ['' @ yes @ ''/'' @ no @ '']: '') s
      in case fgets 16 (inp s1) of
           None \<Rightarrow> (take (length yes) (uninit_answer ext) = yes, s1)
         | Some (answer, rest) \<Rightarrow> (take (length yes) answer = yes, s1\<lparr>inp := rest\<rparr>))"

definition set_echo :: "bool \<Rightarrow> tty \<Rightarrow> bool \<times> tty" where
  "set_echo enabled t =
     (if \<not> isatty t then (False, t)
      else if \<not> tcgetattr_ok t then (False, t)
      else if echo t = enabled then (False, t)
      else (True, t\<lparr>echo := enabled\<rparr>))"

definition ask_for_missing_settings ::
  "string \<Rightarrow> map_string_t \<Rightarrow> session \<Rightarrow> map_string_t \<times> session" where
  "ask_for_missing_settings plugin_name single_plugin_settings s =
     (let loginMissing = (single_plugin_settings ''Login'' = Some []);
          passwordMissing = (single_plugin_settings ''Password'' = Some [])
      in if \<not> loginMissing \<and> \<not> passwordMissing then (single_plugin_settings, s)
         else
           let s1 = printf (''Wrong settings were detected for plugin '' @ plugin_name
                            @ [NEWLINE]) s;
               (settings2, s2) =
                 (if loginMissing then
                    (let (result, s') = read_from_stdin ''Enter your login: '' 64 s1
                     in (single_plugin_settings(''Login'' \<mapsto> result), s'))
                  else (single_plugin_settings, s1))
           in if passwordMissing then
                (let (changed, t1) = set_echo False (terminal s2);
                     (result, s3) = read_from_stdin ''Enter your password: '' 64 (s2\<lparr>terminal := t1\<rparr>);
                     s4 = (if changed then s3\<lparr>terminal := snd (set_echo True (terminal s3))\<rparr> else s3);
                     s5 = puts [] s4
                 in (settings2(''Password'' \<mapsto> result), s5))
              else (settings2, s2))"

text \<open>
  The loop over the reporters of the interactive branch of \<open>report\<close>. The result is
  \<open>None\<close> when the assertion on the size of the report status fails.
\<close>

fun report_interactive ::
  "externals \<Rightarrow> filenames \<Rightarrow> crash_data_t \<Rightarrow> nat \<Rightarrow> string list \<Rightarrow> session \<Rightarrow> session option" where
  "report_interactive ext fn crash_data rating [] s = Some s"
| "report_interactive ext fn crash_data rating (it # rest) s =
     (let question = take 254 (''Report using '' @ it @ ''?'');
          (yes, s1) = ask_yesno ext question s
      in if \<not> yes then report_interactive ext fn crash_data rating rest (puts ''Skipping...'' s1)
         else
           case reporters_settings s1 it of
             None \<Rightarrow>
               (let s2 = puts ''Error loading reporter settings'' s1
                in report_interactive ext fn crash_data rating rest
                     (s2\<lparr>plugins := plugins s2 + 1, errors := errors s2 + 1\<rparr>))
           | Some settings \<Rightarrow>
               if (case settings ''RatingRequired'' of
                     None \<Rightarrow> False
                   | Some rating_setting \<Rightarrow> string_to_bool ext rating_setting \<and> rating < 3)
               then
                 (let s2 = puts ''Reporting disabled because the backtrace is unusable'' s1;
                      s3 = (case get_crash_item_content_or_NULL crash_data (FILENAME_PACKAGE fn) of
                              None \<Rightarrow> s2
                            | Some package \<Rightarrow>
                                if package \<noteq> [] then
                                  printf (''Please try to install debuginfo manually using the command: ''
                                          @ [CHR 0x22] @ ''debuginfo-install '' @ package @ [CHR 0x22]
                                          @ '' and try again'' @ [NEWLINE]) s2
                                else s2)
                  in report_interactive ext fn crash_data rating rest
                       (s3\<lparr>plugins := plugins s3 + 1, errors := errors s3 + 1\<rparr>))
               else
                 (let (settings', s2) = ask_for_missing_settings it settings s1;
                      s3 = s2\<lparr>reporters_settings := (reporters_settings s2)(it \<mapsto> settings'),
                              sent := sent s2 @ [[it]]\<rparr>;
                      r = call_Report ext crash_data [it] (reporters_settings s3)
                  in case r of
                       [(name, flag, msg)] \<Rightarrow>
                         (let s4 = printf (name @ '': '' @ msg @ [NEWLINE]) s3;
                              s5 = s4\<lparr>plugins := plugins s4 + 1\<rparr>;
                              s6 = (if flag = ''0'' then s5\<lparr>errors := errors s5 + 1\<rparr> else s5)
                          in report_interactive ext fn crash_data rating rest s6)
                     | _ \<Rightarrow> None))"

section \<open>The user's settings (user_settings.c)\<close>

text \<open>
  The files are a map from paths to contents. \<open>create_parentdir\<close> walks back from the end
  of the path to the last slash and makes the directory named by what is before it.
\<close>

type_synonym files = "string \<rightharpoonup> string"

fun dirname_end :: "string \<Rightarrow> nat \<Rightarrow> nat" where
  "dirname_end path 0 = 0"
| "dirname_end path (Suc c) =
     (if deref (drop (Suc c) path) \<noteq> CHR ''/'' then dirname_end path c else Suc c)"

definition create_parentdir :: "externals \<Rightarrow> string \<Rightarrow> bool" where
  "create_parentdir ext path =
     (let c = dirname_end path (length path) in
      if deref (drop c path) \<noteq> CHR ''/'' then False
      else make_dir_recursive ext (take c path))"

text \<open>
  \<open>save_conf_file\<close>. After the loop has written the entries to the temporary file, the
  source has \<open>if (!rename(temp_path, path)) goto cleanup;\<close> and \<open>ret = true\<close> behind it.
  \<open>rename\<close> changes the files when it returns 0.
\<close>

definition conf_line :: "string \<times> string \<Rightarrow> string" where
  "conf_line nv = fst nv @ '' = '' @ [CHR 0x22] @ snd nv @ [CHR 0x22] @ [NEWLINE]"

definition save_conf_file :: "externals \<Rightarrow> string \<Rightarrow> map_string_h \<Rightarrow> files \<Rightarrow> bool \<times> files" where
  "save_conf_file ext path settings fs =
     (let temp_path = path @ ''.tmp'' in
      if \<not> create_parentdir ext temp_path \<or> \<not> fopen_w ext temp_path then (False, fs)
      else
        let fs1 = fs(temp_path \<mapsto> concat (map conf_line settings));
            rc = rename_rc ext temp_path path;
            fs2 = (if rc = 0 then fs1(path := fs1 temp_path, temp_path := None) else fs1)
        in if rc = 0 then (False, fs2)
           else (True, fs2))"

text \<open>The two static variables of user_settings.c; both are NULL when the process starts.\<close>

record user_settings_state =
  user_settings :: "map_string_h option"
  conf_path :: "string option"

definition initial_user_settings :: user_settings_state where
  "initial_user_settings = \<lparr>user_settings = None, conf_path = None\<rparr>"

definition get_conf_path :: "externals \<Rightarrow> string \<Rightarrow> string" where
  "get_conf_path ext name =
     (let s = ''.abrt/settings'' @ ''/'' @ name @ ''.conf'' in concat_path_file ext (HOME ext) s)"

definition save_user_settings :: "externals \<Rightarrow> user_settings_state \<Rightarrow> files \<Rightarrow> bool \<times> files" where
  "save_user_settings ext st fs =
     (case (conf_path st, user_settings st) of
        (Some p, Some settings) \<Rightarrow> save_conf_file ext p settings fs
      | _ \<Rightarrow> (True, fs))"

text \<open>
  \<open>load_user_settings\<close> sets both variables; the table is the new, empty one when
  \<open>load_conf_file\<close> fails.
\<close>

definition load_user_settings ::
  "externals \<Rightarrow> string \<Rightarrow> user_settings_state \<Rightarrow> bool \<times> user_settings_state" where
  "load_user_settings ext application_name st =
     (let p = get_conf_path ext application_name in
      case load_conf_file ext p of
        None \<Rightarrow> (False, \<lparr>user_settings = Some [], conf_path = Some p\<rparr>)
      | Some loaded \<Rightarrow> (True, \<lparr>user_settings = Some loaded, conf_path = Some p\<rparr>))"

section \<open>Notions of the specification\<close>

text \<open>
  The block that the specification gives for one field: the marker line, the description,
  the read-only note when the field is not editable, and the escaped content.
\<close>

definition spec_field_block :: "string \<Rightarrow> string \<Rightarrow> crash_item \<Rightarrow> string" where
  "spec_field_block field description v =
     FIELD_SEP @ field @ [NEWLINE] @ description @ [NEWLINE]
     @ (if CD_FLAG_ISEDITABLE \<in> flags v then [] else ''# This field is read only'' @ [NEWLINE])
     @ escape (content v) @ [NEWLINE]"

text \<open>
  What one entry of the fixed list adds to the rendering: the block of its field when the
  report has the field and the field is not a system value, and nothing otherwise.
\<close>

definition rendered_block :: "crash_data_t \<Rightarrow> string \<times> string \<Rightarrow> string" where
  "rendered_block report fd =
     (case report (fst fd) of
        None \<Rightarrow> []
      | Some v \<Rightarrow> if CD_FLAG_SYS \<in> flags v then [] else spec_field_block (fst fd) (snd fd) v)"

text \<open>The number of well-known fields whose content differs between two reports.\<close>

definition changed_fields :: "filenames \<Rightarrow> crash_data_t \<Rightarrow> crash_data_t \<Rightarrow> string list" where
  "changed_fields fn report report' =
     filter (\<lambda>f. map_option content (report' f) \<noteq> map_option content (report f))
       (remdups (report_fields fn))"

definition changed_count :: "filenames \<Rightarrow> crash_data_t \<Rightarrow> crash_data_t \<Rightarrow> nat" where
  "changed_count fn report report' = length (changed_fields fn report report')"

text \<open>The trimmed body that a text holds for a field, when it has a block for the field.\<close>

definition new_content :: "string \<Rightarrow> string \<Rightarrow> string option" where
  "new_content text field =
     (let separator = [NEWLINE] @ FIELD_SEP @ field @ [NEWLINE] in
      case strstr text separator of
        None \<Rightarrow> None
      | Some found \<Rightarrow>
          let textfield = drop (length separator) found;
              len = (case strstr textfield ([NEWLINE] @ FIELD_SEP) of
                       None \<Rightarrow> length textfield
                     | Some e \<Rightarrow> length textfield - length e)
          in Some (trim (take len textfield)))"

text \<open>
  The invariant of \<open>read_crash_report\<close>: an item is as it was in the report \<open>report0\<close>,
  or it is one of the fields \<open>S\<close> read so far and has got the body of the text as its
  content, which differs from the content it had.
\<close>

definition apply_inv :: "string \<Rightarrow> crash_data_t \<Rightarrow> string set \<Rightarrow> crash_data_t \<Rightarrow> bool" where
  "apply_inv text report0 S report =
     (\<forall>f. report f = report0 f
        \<or> (f \<in> S \<and> (\<exists>v nv. report0 f = Some v \<and> new_content text f = Some nv
                       \<and> report f = Some (v\<lparr>content := nv\<rparr>) \<and> nv \<noteq> content v)))"

text \<open>
  Whether some line of a content starts with two backslashes and a hash (\<open>newline\<close> tells
  whether the content starts at a line start).
\<close>

fun double_backslash_line :: "bool \<Rightarrow> string \<Rightarrow> bool" where
  "double_backslash_line newline [] = False"
| "double_backslash_line newline (c # cs) =
     ((newline \<and> c = BACKSLASH \<and> deref cs = BACKSLASH \<and> deref (tl cs) = HASH)
      \<or> double_backslash_line (c = NEWLINE) cs)"

text \<open>Comment lines, as the renderer puts them before a content: a hash, the text, a newline.\<close>

definition comment_lines :: "string list \<Rightarrow> string" where
  "comment_lines ls = concat (map (\<lambda>l. HASH # l @ [NEWLINE]) ls)"

text \<open>
  The user's layer of the settings of a reporter: what \<open>load_conf_file\<close> loads from the
  reporter's file under the home directory, if there is a home directory and the file
  loads.
\<close>

definition user_layer :: "externals \<Rightarrow> string \<Rightarrow> map_string_h option" where
  "user_layer ext d =
     (case pw_dir ext of
        None \<Rightarrow> None
      | Some homedir \<Rightarrow> load_conf_file ext (homedir @ ''/.abrt/'' @ d @ ''.conf''))"

text \<open>The hint to install debuginfo, printed when the report has a package that is not empty.\<close>

definition debuginfo_hint :: "filenames \<Rightarrow> crash_data_t \<Rightarrow> string" where
  "debuginfo_hint fn crash_data =
     (case crash_data (FILENAME_PACKAGE fn) of
        None \<Rightarrow> []
      | Some item \<Rightarrow>
          if content item = [] then []
          else ''Please try to install debuginfo manually using the command: ''
               @ [CHR 0x22] @ ''debuginfo-install '' @ content item @ [CHR 0x22]
               @ '' and try again'' @ [NEWLINE])"

text \<open>The message that both the renderer and the reader log for a system value.\<close>

definition sys_message :: "string \<Rightarrow> string" where
  "sys_message field = ''Cannot update field '' @ field @ '' because it is a system value''"

text \<open>
  What one entry of the fixed list adds to the log of the rendering: the message when the
  report has the field and the field is a system value, and nothing otherwise.
\<close>

definition rendered_messages :: "crash_data_t \<Rightarrow> string \<times> string \<Rightarrow> string list" where
  "rendered_messages report fd =
     (case report (fst fd) of
        None \<Rightarrow> []
      | Some v \<Rightarrow> if CD_FLAG_SYS \<in> flags v then [sys_message (fst fd)] else [])"

text \<open>
  The session after a reporter has been refused for its rating, from the session \<open>s1\<close>
  in which the question has been answered: the refusal and the hint are printed, and both
  counters are one up.
\<close>

definition rating_refused :: "filenames \<Rightarrow> crash_data_t \<Rightarrow> session \<Rightarrow> session" where
  "rating_refused fn crash_data s1 =
     s1\<lparr>out := out s1 @ ''Reporting disabled because the backtrace is unusable''
                 @ [NEWLINE] @ debuginfo_hint fn crash_data,
        plugins := plugins s1 + 1, errors := errors s1 + 1\<rparr>"

section \<open>Example inputs\<close>

definition double_escaped :: string where
  "double_escaped = [BACKSLASH, BACKSLASH, HASH]"

definition two_fields :: crash_data_t where
  "two_fields =
     [''comment'' \<mapsto> \<lparr>content = ''old'', flags = {CD_FLAG_TXT, CD_FLAG_ISEDITABLE}\<rparr>,
      ''reproduce'' \<mapsto> \<lparr>content = ''1. '', flags = {CD_FLAG_TXT, CD_FLAG_ISEDITABLE}\<rparr>]"

definition two_edits :: string where
  "two_edits =
     [NEWLINE] @ ''%----comment'' @ [NEWLINE] @ ''new'' @ [NEWLINE]
     @ ''%----reproduce'' @ [NEWLINE] @ ''1. run it'' @ [NEWLINE]"

definition two_fields_edited :: crash_data_t where
  "two_fields_edited =
     [''comment'' \<mapsto> \<lparr>content = ''new'', flags = {CD_FLAG_TXT, CD_FLAG_ISEDITABLE}\<rparr>,
      ''reproduce'' \<mapsto> \<lparr>content = ''1. run it'', flags = {CD_FLAG_TXT, CD_FLAG_ISEDITABLE}\<rparr>]"

definition sys_item :: crash_item where
  "sys_item = \<lparr>content = ''secret'', flags = {CD_FLAG_TXT, CD_FLAG_SYS}\<rparr>"

definition sys_report :: crash_data_t where
  "sys_report = [''comment'' \<mapsto> sys_item]"

definition sys_editable_item :: crash_item where
  "sys_editable_item =
     \<lparr>content = ''old'', flags = {CD_FLAG_TXT, CD_FLAG_ISEDITABLE, CD_FLAG_SYS}\<rparr>"

definition sys_editable_report :: crash_data_t where
  "sys_editable_report = [''comment'' \<mapsto> sys_editable_item]"

definition readonly_item :: crash_item where
  "readonly_item = \<lparr>content = ''old'', flags = {CD_FLAG_TXT}\<rparr>"

definition readonly_report :: crash_data_t where
  "readonly_report = [''comment'' \<mapsto> readonly_item]"

definition events_example :: string where
  "events_example =
     ''report_bugzilla'' @ [NEWLINE] @ ''reportXYZ'' @ [NEWLINE] @ ''foo'' @ [NEWLINE]
     @ ''report'' @ [NEWLINE]"

text \<open>An environment in which every call succeeds.\<close>

definition ok_ext :: externals where
  "ok_ext =
     \<lparr>call_GetPluginSettings = (\<lambda>name. Map.empty),
      call_Report = (\<lambda>crash_data reporters settings. map (\<lambda>r. (r, ''1'', ''sent'')) reporters),
      load_conf_file = (\<lambda>path. None),
      string_to_bool = (\<lambda>s. s = ''1'' \<or> s = ''yes''),
      xatou = (\<lambda>s. if s = ''2'' then Some 2 else if s = ''4'' then Some 4 else None),
      pw_dir = Some ''/home/alice'',
      uninit_answer = [],
      make_dir_recursive = (\<lambda>path. True),
      fopen_w = (\<lambda>path. True),
      rename_rc = (\<lambda>old new. 0),
      HOME = Some ''/home/alice'',
      concat_path_file =
        (\<lambda>dir file. (case dir of None \<Rightarrow> [] | Some d \<Rightarrow> d) @ ''/'' @ file)\<rparr>"

definition settings_path :: string where
  "settings_path = ''/home/alice/.abrt/settings/abrt-cli.conf''"

definition layering_ext :: externals where
  "layering_ext =
     ok_ext\<lparr>call_GetPluginSettings :=
              (\<lambda>name. [''Login'' \<mapsto> [], ''Password'' \<mapsto> [], ''Extra'' \<mapsto> ''x'']),
            load_conf_file :=
              (\<lambda>path. if path = ''/home/alice/.abrt/report_bugzilla.conf''
                       then Some [(''Login'', ''alice'')] else None)\<rparr>"

definition gate_report :: crash_data_t where
  "gate_report =
     [''rating'' \<mapsto> \<lparr>content = ''2'', flags = {CD_FLAG_TXT}\<rparr>,
      ''package'' \<mapsto> \<lparr>content = ''foo-1.0'', flags = {CD_FLAG_TXT}\<rparr>]"

definition gate_session :: session where
  "gate_session =
     \<lparr>plugins = 0, errors = 0, out = [], inp = ''y'' @ [NEWLINE],
      terminal = \<lparr>isatty = True, tcgetattr_ok = True, echo = True\<rparr>,
      reporters_settings = [''report_bugzilla'' \<mapsto> [''RatingRequired'' \<mapsto> ''yes'']],
      sent = []\<rparr>"

section \<open>Properties of the field codec\<close>

lemma skip_whitespace_dropWhile: "skip_whitespace s = dropWhile isspace s"
  by (induction s) auto

lemma trim_end_rev:
  "n \<le> length s \<Longrightarrow> take (trim_end s n) s = rev (dropWhile isspace (rev (take n s)))"
proof (induction n)
  case 0
  then show ?case by simp
next
  case (Suc n)
  then have lt: "n < length s" by simp
  have tk: "take (Suc n) s = take n s @ [s ! n]"
    using lt by (simp add: take_Suc_conv_app_nth)
  show ?case
  proof (cases "isspace (s ! n)")
    case True
    with Suc lt show ?thesis by (simp add: tk)
  next
    case False
    then show ?thesis by (simp add: tk)
  qed
qed

lemma trim_rev: "trim s = rev (dropWhile isspace (rev (dropWhile isspace s)))"
  by (simp add: trim_def Let_def skip_whitespace_dropWhile trim_end_rev)

lemma dropWhile_rev_head:
  "d = [] \<or> \<not> P (hd d) \<Longrightarrow> dropWhile P (rev (dropWhile P (rev d))) = rev (dropWhile P (rev d))"
  by (cases d) (auto simp: dropWhile_append)

lemma dropWhile_rev_dropWhile:
  "dropWhile P (rev (dropWhile P (rev (dropWhile P s)))) = rev (dropWhile P (rev (dropWhile P s)))"
proof (rule dropWhile_rev_head)
  show "dropWhile P s = [] \<or> \<not> P (hd (dropWhile P s))"
    using hd_dropWhile [of P s] by blast
qed

lemma trim_idem: "trim (trim s) = trim s"
  by (simp add: trim_rev dropWhile_rev_dropWhile)


lemma chars_distinct:
  "HASH \<noteq> BACKSLASH" "BACKSLASH \<noteq> HASH" "HASH \<noteq> NEWLINE" "NEWLINE \<noteq> HASH"
  "BACKSLASH \<noteq> NEWLINE" "NEWLINE \<noteq> BACKSLASH" "HASH \<noteq> NUL" "NUL \<noteq> HASH"
  "BACKSLASH \<noteq> NUL" "NUL \<noteq> BACKSLASH"
  by (simp_all add: HASH_def BACKSLASH_def NEWLINE_def NUL_def)

lemma escape_count_length: "length (escape_copy newline s) = length s + escape_count newline s"
  by (induction s arbitrary: newline) (auto simp: chars_distinct)

lemma deref_escape_copy_False: "deref (escape_copy False s) = deref s"
  by (cases s) (simp_all add: deref_def)

lemma tl_escape_copy_False:
  assumes "deref s \<noteq> NEWLINE"
  shows "deref (tl (escape_copy False s)) = deref (tl s)"
proof (cases s)
  case Nil
  then show ?thesis by simp
next
  case (Cons a list)
  with assms have "a \<noteq> NEWLINE" by (simp add: deref_def)
  with Cons show ?thesis by (simp add: deref_escape_copy_False)
qed

lemma unescape_escape:
  "\<not> double_backslash_line newline s \<Longrightarrow> unescape_loop newline (escape_copy newline s) = s"
proof (induction s arbitrary: newline)
  case Nil
  then show ?case by simp
next
  case (Cons c cs)
  have ih: "unescape_loop (c = NEWLINE) (escape_copy (c = NEWLINE) cs) = cs"
    using Cons by simp
  show ?case
  proof (cases newline)
    case False
    then show ?thesis using ih by simp
  next
    case True
    consider (hash) "c = HASH" | (esc) "c = BACKSLASH" "deref cs = HASH"
      | (bs) "c = BACKSLASH" "deref cs \<noteq> HASH" | (other) "c \<noteq> HASH" "c \<noteq> BACKSLASH" by blast
    then show ?thesis
    proof cases
      case hash
      then show ?thesis using True ih chars_distinct by (simp add: deref_def)
    next
      case esc
      then obtain cs' where cs: "cs = HASH # cs'" by (cases cs) (auto simp: deref_def chars_distinct)
      show ?thesis using True ih esc cs chars_distinct by (simp add: deref_def)
    next
      case bs
      have nd: "\<not> (deref cs = BACKSLASH \<and> deref (tl cs) = HASH)"
        using Cons.prems True bs by simp
      have "\<not> (deref (escape_copy False cs) = BACKSLASH \<and> deref (tl (escape_copy False cs)) = HASH)"
        using nd chars_distinct by (auto simp: deref_escape_copy_False tl_escape_copy_False)
      then show ?thesis using True ih bs chars_distinct
        by (auto simp: deref_escape_copy_False)
    next
      case other
      then show ?thesis using True ih by simp
    qed
  qed
qed


lemma skip_comment_line:
  "NEWLINE \<notin> set l \<Longrightarrow> skip_comment (l @ NEWLINE # rest) = NEWLINE # rest"
  by (induction l) auto

lemma unescape_comment_line:
  assumes "NEWLINE \<notin> set l"
  shows "unescape_loop True (HASH # l @ NEWLINE # rest) = unescape_loop True rest"
proof -
  have "skip_comment (HASH # l @ NEWLINE # rest) = NEWLINE # rest"
    using skip_comment_line [OF assms, of rest] by (simp add: chars_distinct)
  then show ?thesis by simp
qed

lemma unescape_comment_lines:
  "\<forall>l \<in> set ls. NEWLINE \<notin> set l \<Longrightarrow>
   unescape_loop True (comment_lines ls @ rest) = unescape_loop True rest"
proof (induction ls)
  case Nil
  then show ?case by (simp add: comment_lines_def)
next
  case (Cons l ls)
  have "unescape_loop True (comment_lines (l # ls) @ rest)
        = unescape_loop True (HASH # l @ NEWLINE # (comment_lines ls @ rest))"
    by (simp add: comment_lines_def)
  also have "\<dots> = unescape_loop True (comment_lines ls @ rest)"
    using Cons.prems by (intro unescape_comment_line) simp
  finally show ?case using Cons by simp
qed

text \<open>
  Where no line of the content starts with two backslashes and a hash, the content comes
  back from its escaped form with comment lines before it.
\<close>

lemma escape_roundtrip_otherwise:
  assumes "\<not> double_backslash_line True c" and "\<forall>l \<in> set ls. NEWLINE \<notin> set l"
  shows "remove_comments_and_unescape (comment_lines ls @ escape c) = c"
  using assms
  by (simp add: remove_comments_and_unescape_def escape_def unescape_comment_lines
      unescape_escape)

text \<open>
  C1. The claim: for every content without NUL, removing the comments and unescaping
  recovers the content from its escaped rendering with comment lines put before it. The
  code does not: \<open>escape\<close> leaves a line that starts with two backslashes and a hash as
  it is, and \<open>remove_comments_and_unescape\<close> takes one of the two backslashes away. The
  theorem runs the code on that content, alone and behind the description line of the
  comment field.
\<close>

theorem escape_roundtrip_loses_backslash:
  "escape double_escaped = double_escaped
   \<and> remove_comments_and_unescape (escape double_escaped) = [BACKSLASH, HASH]
   \<and> remove_comments_and_unescape
        (''# Describe the circumstances of this crash below'' @ [NEWLINE] @ escape double_escaped)
      = [BACKSLASH, HASH]
   \<and> [BACKSLASH, HASH] \<noteq> double_escaped"
  by (simp add: double_escaped_def remove_comments_and_unescape_def escape_def deref_def
      BACKSLASH_def HASH_def NEWLINE_def)

section \<open>Properties of the report document\<close>

lemma new_content_trimmed: "new_content text f = Some nv \<Longrightarrow> trim nv = nv"
  by (auto simp: new_content_def Let_def trim_idem split: option.splits)

lemma read_field_cases:
  assumes "read_crash_report_field text report f = (r, report', msgs)"
  shows "(r = 0 \<and> report' = report)
         \<or> (r = 1 \<and> (\<exists>v nv. new_content text f = Some nv \<and> report f = Some v
                \<and> CD_FLAG_SYS \<notin> flags v \<and> CD_FLAG_ISEDITABLE \<in> flags v
                \<and> nv \<noteq> trim (content v) \<and> report' = report(f \<mapsto> v\<lparr>content := nv\<rparr>)))"
  using assms
  by (auto simp: read_crash_report_field_def new_content_def Let_def split: option.splits if_splits)

lemma apply_inv_step:
  assumes inv: "apply_inv text report0 S report"
    and step: "read_crash_report_field text report f = (r, report', msgs)"
  shows "apply_inv text report0 (insert f S) report'
         \<and> (r = 0 \<and> report' = report \<or> r = 1 \<and> report' f \<noteq> report0 f)"
proof -
  from read_field_cases [OF step] show ?thesis
  proof
    assume "r = 0 \<and> report' = report"
    with inv show ?thesis by (auto simp: apply_inv_def)
  next
    assume "r = 1 \<and> (\<exists>v nv. new_content text f = Some nv \<and> report f = Some v
                \<and> CD_FLAG_SYS \<notin> flags v \<and> CD_FLAG_ISEDITABLE \<in> flags v
                \<and> nv \<noteq> trim (content v) \<and> report' = report(f \<mapsto> v\<lparr>content := nv\<rparr>))"
    then obtain v nv where r: "r = 1" and nc: "new_content text f = Some nv"
      and rf: "report f = Some v" and ne: "nv \<noteq> trim (content v)"
      and r': "report' = report(f \<mapsto> v\<lparr>content := nv\<rparr>)" by blast
    have tn: "trim nv = nv" using nc by (rule new_content_trimmed)
    have same: "report f = report0 f"
    proof (rule ccontr)
      assume "report f \<noteq> report0 f"
      with inv obtain v' nv' where "new_content text f = Some nv'"
        and "report f = Some (v'\<lparr>content := nv'\<rparr>)"
        unfolding apply_inv_def by blast
      with nc rf have "content v = nv" by auto
      with ne tn show False by simp
    qed
    have nev: "nv \<noteq> content v" using ne tn by auto
    have "apply_inv text report0 (insert f S) report'"
      unfolding apply_inv_def
    proof
      fix g
      show "report' g = report0 g
            \<or> (g \<in> insert f S
               \<and> (\<exists>v nv. report0 g = Some v \<and> new_content text g = Some nv
                     \<and> report' g = Some (v\<lparr>content := nv\<rparr>) \<and> nv \<noteq> content v))"
      proof (cases "g = f")
        case True
        have "report0 f = Some v" using same rf by simp
        moreover have "report' f = Some (v\<lparr>content := nv\<rparr>)" using r' by simp
        ultimately show ?thesis using True nc nev by blast
      next
        case False
        then show ?thesis using inv r' by (auto simp: apply_inv_def)
      qed
    qed
    moreover have "report' f \<noteq> report0 f"
    proof
      assume "report' f = report0 f"
      moreover have "report' f = Some (v\<lparr>content := nv\<rparr>)" using r' by simp
      moreover have "report0 f = Some v" using same rf by simp
      ultimately have "v\<lparr>content := nv\<rparr> = v" by simp
      then have "content (v\<lparr>content := nv\<rparr>) = content v" by simp
      with nev show False by simp
    qed
    ultimately show ?thesis using r by simp
  qed
qed

lemma read_fields_inv:
  assumes "apply_inv text report0 S report"
    and "result = (if report = report0 then 0 else 1)"
    and "read_fields text fs (result, report, log) = (result', report', log')"
  shows "apply_inv text report0 (S \<union> set fs) report'
         \<and> result' = (if report' = report0 then 0 else 1)"
  using assms
proof (induction fs arbitrary: S report result log)
  case Nil
  then show ?case by auto
next
  case (Cons f fs)
  obtain r rep msgs where step: "read_crash_report_field text report f = (r, rep, msgs)"
    by (cases "read_crash_report_field text report f") auto
  from apply_inv_step [OF Cons.prems(1) step]
  have inv': "apply_inv text report0 (insert f S) rep"
    and alt: "r = 0 \<and> rep = report \<or> r = 1 \<and> rep f \<noteq> report0 f" by auto
  have res: "result OR r = (if rep = report0 then 0 else 1)"
    using alt Cons.prems(2) by auto
  have run: "read_fields text fs (result OR r, rep, log @ msgs) = (result', report', log')"
    using Cons.prems(3) step by simp
  from Cons.IH [OF inv' res run] show ?case by simp
qed

lemma apply_inv_changed:
  assumes "apply_inv text report0 (set (report_fields fn)) report'"
  shows "(report' = report0) = (changed_count fn report0 report' = 0)"
proof
  assume "report' = report0"
  then show "changed_count fn report0 report' = 0"
    by (simp add: changed_count_def changed_fields_def)
next
  assume z: "changed_count fn report0 report' = 0"
  show "report' = report0"
  proof
    fix f
    show "report' f = report0 f"
    proof (rule ccontr)
      assume ne: "report' f \<noteq> report0 f"
      with assms obtain v nv where "f \<in> set (report_fields fn)" "report0 f = Some v"
        "report' f = Some (v\<lparr>content := nv\<rparr>)" "nv \<noteq> content v"
        by (auto simp: apply_inv_def)
      then have "f \<in> set (changed_fields fn report0 report')"
        by (simp add: changed_fields_def)
      with z show False by (simp add: changed_count_def)
    qed
  qed
qed


lemma two_edits_run:
  "read_crash_report abrt_filenames two_fields two_edits = (1, two_fields_edited, [])"
  by (simp add: read_crash_report_def report_fields_def abrt_filenames_def two_fields_def
      two_edits_def two_fields_edited_def read_crash_report_field_def FIELD_SEP_def
      NEWLINE_def Let_def trim_def isspace_def)

lemma two_edits_count: "changed_count abrt_filenames two_fields two_fields_edited = 2"
  by (simp add: changed_count_def changed_fields_def report_fields_def abrt_filenames_def
      two_fields_def two_fields_edited_def)

text \<open>
  C4, as the code has it: \<open>read_crash_report\<close> returns 0 when no field changed and 1
  when at least one field changed, however many did.
\<close>

theorem read_crash_report_result:
  "fst (read_crash_report fn report text)
   = (if changed_count fn report (fst (snd (read_crash_report fn report text))) = 0
      then 0 else 1)"
proof -
  obtain result report' log
    where run: "read_fields text (report_fields fn) (0, report, []) = (result, report', log)"
    by (cases "read_fields text (report_fields fn) (0, report, [])") auto
  have inv0: "apply_inv text report {} report" by (simp add: apply_inv_def)
  from read_fields_inv [OF inv0 _ run]
  have "apply_inv text report (set (report_fields fn)) report'"
    and "result = (if report' = report then 0 else 1)" by auto
  then have "result = (if changed_count fn report report' = 0 then 0 else 1)"
    using apply_inv_changed by auto
  then show ?thesis using run by (simp add: read_crash_report_def)
qed

theorem read_crash_report_result_witness:
  "fst (read_crash_report abrt_filenames two_fields two_edits) = 1
   \<and> changed_count abrt_filenames two_fields two_fields_edited \<noteq> 0"
  using read_crash_report_result [of abrt_filenames two_fields two_edits]
  by (simp add: two_edits_run two_edits_count)

text \<open>
  C4, the claim as stated fails: the edited text changes two fields of the report, and
  \<open>read_crash_report\<close> returns 1, which is not the number of changed fields.
\<close>

theorem read_crash_report_count_counterexample:
  "changed_count abrt_filenames two_fields
     (fst (snd (read_crash_report abrt_filenames two_fields two_edits))) = 2
   \<and> fst (read_crash_report abrt_filenames two_fields two_edits) = 1"
  by (simp add: two_edits_run two_edits_count)

lemma write_fields_blocks:
  "write_fields report fds (fp, log) = (fp', log') \<Longrightarrow> fp' = fp @ concat (map (rendered_block report) fds)"
proof (induction fds arbitrary: fp log)
  case Nil
  then show ?case by simp
next
  case (Cons fd fds)
  obtain f d where fd: "fd = (f, d)" by (cases fd)
  obtain fp1 msgs where w: "write_crash_report_field fp report f d = (fp1, msgs)"
    by (cases "write_crash_report_field fp report f d")
  have fp1: "fp1 = fp @ rendered_block report (f, d)"
    using w by (auto simp: write_crash_report_field_def rendered_block_def spec_field_block_def Let_def
        split: option.splits if_splits)
  from Cons.prems fd w have "write_fields report fds (fp1, log @ msgs) = (fp', log')" by simp
  from Cons.IH [OF this] fp1 fd show ?case by simp
qed

lemma write_fields_log:
  "write_fields report fds (fp, log) = (fp', log') \<Longrightarrow>
   log' = log @ concat (map (rendered_messages report) fds)"
proof (induction fds arbitrary: fp log)
  case Nil
  then show ?case by simp
next
  case (Cons fd fds)
  obtain f d where fd: "fd = (f, d)" by (cases fd)
  obtain fp1 msgs where w: "write_crash_report_field fp report f d = (fp1, msgs)"
    by (cases "write_crash_report_field fp report f d")
  have m: "msgs = rendered_messages report (f, d)"
    using w by (auto simp: write_crash_report_field_def rendered_messages_def sys_message_def Let_def
        split: option.splits if_splits)
  from Cons.prems fd w have "write_fields report fds (fp1, log @ msgs) = (fp', log')" by simp
  from Cons.IH [OF this] m fd show ?case by simp
qed

text \<open>
  C5, as the code has it: \<open>write_crash_report\<close> writes the header and then, in the order
  of the fixed list, the block of every field that is present in the report and is not
  flagged \<open>CD_FLAG_SYS\<close>; a field flagged \<open>CD_FLAG_SYS\<close> gets no block, and for each such
  field that is present the message that it cannot be updated is logged, and nothing else
  is logged.
\<close>

theorem write_crash_report_blocks:
  "write_crash_report fn report fp
   = (fp @ report_header @ concat (map (rendered_block report) (report_descriptions fn)),
      concat (map (rendered_messages report) (report_descriptions fn)))"
proof -
  obtain fp' log' where
    w: "write_fields report (report_descriptions fn) (fp @ report_header, []) = (fp', log')"
    by (cases "write_fields report (report_descriptions fn) (fp @ report_header, [])")
  from write_fields_blocks [OF w] write_fields_log [OF w] w
  show ?thesis by (simp add: write_crash_report_def)
qed

theorem write_crash_report_blocks_witness:
  "write_crash_report abrt_filenames two_fields []
   = (report_header
     @ spec_field_block ''comment'' ''# Describe the circumstances of this crash below''
         \<lparr>content = ''old'', flags = {CD_FLAG_TXT, CD_FLAG_ISEDITABLE}\<rparr>
     @ spec_field_block ''reproduce'' ''# How to reproduce the crash?''
         \<lparr>content = ''1. '', flags = {CD_FLAG_TXT, CD_FLAG_ISEDITABLE}\<rparr>, [])
  \<and> snd (write_crash_report abrt_filenames sys_editable_report [])
     = [''Cannot update field comment because it is a system value'']"
  using write_crash_report_blocks [of abrt_filenames two_fields "[]"] write_crash_report_blocks [of abrt_filenames sys_editable_report "[]"]
  by (simp add: report_descriptions_def abrt_filenames_def two_fields_def rendered_block_def
      rendered_messages_def sys_message_def sys_editable_report_def sys_editable_item_def)

text \<open>
  C5, the claim as stated fails: the comment field is present and flagged \<open>CD_FLAG_SYS\<close>,
  and \<open>write_crash_report\<close> writes the header only and logs that the field cannot be
  updated; the block of the field is not in the text.
\<close>

theorem write_crash_report_sys_counterexample:
  "sys_report ''comment'' = Some sys_item
   \<and> write_crash_report abrt_filenames sys_report []
       = (report_header, [''Cannot update field comment because it is a system value''])
   \<and> \<not> sublist (spec_field_block ''comment''
                   ''# Describe the circumstances of this crash below'' sys_item)
         (fst (write_crash_report abrt_filenames sys_report []))"
proof -
  have run: "write_crash_report abrt_filenames sys_report []
       = (report_header, [''Cannot update field comment because it is a system value''])"
    by (simp add: write_crash_report_def report_descriptions_def abrt_filenames_def
        sys_report_def sys_item_def write_crash_report_field_def)
  have "\<not> sublist (spec_field_block ''comment''
                   ''# Describe the circumstances of this crash below'' sys_item) report_header"
    by (simp add: spec_field_block_def sys_item_def report_header_def FIELD_SEP_def NEWLINE_def
        escape_def sublist_Cons_right prefix_Cons)
  with run show ?thesis by (simp add: sys_report_def)
qed

lemma read_field_keeps:
  assumes "report f = Some v" "CD_FLAG_SYS \<in> flags v \<or> CD_FLAG_ISEDITABLE \<notin> flags v"
    "read_crash_report_field text report g = (r, report', m)"
  shows "report' f = Some v"
  using assms
  by (cases "g = f") (auto simp: read_crash_report_field_def Let_def split: option.splits if_splits)

lemma read_fields_keep:
  assumes "report f = Some v" "CD_FLAG_SYS \<in> flags v \<or> CD_FLAG_ISEDITABLE \<notin> flags v"
    "read_fields text fs (result, report, log) = (result', report', log')"
  shows "report' f = Some v"
  using assms
proof (induction fs arbitrary: result report log)
  case Nil
  then show ?case by simp
next
  case (Cons g fs)
  obtain r rep msgs where step: "read_crash_report_field text report g = (r, rep, msgs)"
    by (cases "read_crash_report_field text report g") auto
  have k: "rep f = Some v" using read_field_keeps [OF Cons.prems(1,2) step] .
  have run: "read_fields text fs (result OR r, rep, log @ msgs) = (result', report', log')"
    using Cons.prems(3) step by simp
  from Cons.IH [OF k Cons.prems(2) run] show ?case .
qed

lemma read_crash_report_keeps:
  assumes "report f = Some v" "CD_FLAG_SYS \<in> flags v \<or> CD_FLAG_ISEDITABLE \<notin> flags v"
  shows "fst (snd (read_crash_report fn report text)) f = Some v"
proof -
  obtain result report' log
    where run: "read_fields text (report_fields fn) (0, report, []) = (result, report', log)"
    by (cases "read_fields text (report_fields fn) (0, report, [])") auto
  from read_fields_keep [OF assms run] run show ?thesis by (simp add: read_crash_report_def)
qed

text \<open>
  C6. A field flagged \<open>CD_FLAG_SYS\<close> is never replaced: \<open>read_crash_report_field\<close> on
  it leaves the report as it is, whatever the text and the other flags, and after
  \<open>read_crash_report\<close> the field still has its item.
\<close>

theorem sys_field_never_replaced:
  assumes "report f = Some v" and "CD_FLAG_SYS \<in> flags v"
  shows "fst (snd (read_crash_report_field text report f)) = report
       \<and> fst (snd (read_crash_report fn report text)) f = Some v"
proof
  show "fst (snd (read_crash_report_field text report f)) = report"
    using assms by (simp add: read_crash_report_field_def Let_def split: option.splits)
  show "fst (snd (read_crash_report fn report text)) f = Some v"
    using assms by (simp add: read_crash_report_keeps)
qed

theorem sys_field_never_replaced_witness:
  "sys_editable_report ''comment'' = Some sys_editable_item
   \<and> CD_FLAG_SYS \<in> flags sys_editable_item \<and> CD_FLAG_ISEDITABLE \<in> flags sys_editable_item
   \<and> new_content two_edits ''comment'' = Some ''new''
   \<and> fst (snd (read_crash_report_field two_edits sys_editable_report ''comment''))
       = sys_editable_report
   \<and> fst (snd (read_crash_report abrt_filenames sys_editable_report two_edits)) ''comment''
       = Some sys_editable_item"
proof -
  have a: "sys_editable_report ''comment'' = Some sys_editable_item"
    by (simp add: sys_editable_report_def)
  have b: "CD_FLAG_SYS \<in> flags sys_editable_item" by (simp add: sys_editable_item_def)
  have c: "CD_FLAG_ISEDITABLE \<in> flags sys_editable_item" by (simp add: sys_editable_item_def)
  have d: "new_content two_edits ''comment'' = Some ''new''"
    by (simp add: new_content_def two_edits_def FIELD_SEP_def NEWLINE_def Let_def trim_def
        isspace_def)
  from sys_field_never_replaced
         [of sys_editable_report "''comment''" sys_editable_item two_edits abrt_filenames, OF a b]
       a b c d
  show ?thesis by simp
qed

text \<open>
  C7, as the code has it: a field without \<open>CD_FLAG_ISEDITABLE\<close> is never changed and
  never counted; \<open>read_crash_report_field\<close> returns 0 on it and leaves the report as it
  is, and after \<open>read_crash_report\<close> the field still has its item. The dropped edit is
  reported with the message that the field cannot be updated exactly when the field is
  flagged \<open>CD_FLAG_SYS\<close> and the text has a block for it; otherwise nothing is logged.
\<close>

theorem readonly_field_unchanged:
  assumes "report f = Some v" and "CD_FLAG_ISEDITABLE \<notin> flags v"
  shows "fst (read_crash_report_field text report f) = 0
       \<and> fst (snd (read_crash_report_field text report f)) = report
       \<and> snd (snd (read_crash_report_field text report f))
           = (if CD_FLAG_SYS \<in> flags v \<and> new_content text f \<noteq> None
              then [sys_message f] else [])
       \<and> fst (snd (read_crash_report fn report text)) f = Some v"
proof (intro conjI)
  show "fst (read_crash_report_field text report f) = 0"
    using assms by (simp add: read_crash_report_field_def Let_def split: option.splits)
  show "fst (snd (read_crash_report_field text report f)) = report"
    using assms by (simp add: read_crash_report_field_def Let_def split: option.splits)
  show "snd (snd (read_crash_report_field text report f))
           = (if CD_FLAG_SYS \<in> flags v \<and> new_content text f \<noteq> None
              then [sys_message f] else [])"
    using assms
    by (simp add: read_crash_report_field_def new_content_def sys_message_def Let_def
        split: option.splits)
  show "fst (snd (read_crash_report fn report text)) f = Some v"
    using assms by (simp add: read_crash_report_keeps)
qed

lemma two_edits_comment: "new_content two_edits ''comment'' = Some ''new''"
  by (simp add: new_content_def two_edits_def FIELD_SEP_def NEWLINE_def Let_def trim_def
        isspace_def)

theorem readonly_field_unchanged_witness:
  "readonly_report ''comment'' = Some readonly_item
   \<and> CD_FLAG_ISEDITABLE \<notin> flags readonly_item \<and> CD_FLAG_SYS \<notin> flags readonly_item
   \<and> read_crash_report_field two_edits readonly_report ''comment'' = (0, readonly_report, [])
   \<and> fst (snd (read_crash_report abrt_filenames readonly_report two_edits)) ''comment''
       = Some readonly_item
   \<and> sys_report ''comment'' = Some sys_item \<and> CD_FLAG_ISEDITABLE \<notin> flags sys_item
   \<and> snd (snd (read_crash_report_field two_edits sys_report ''comment''))
       = [''Cannot update field comment because it is a system value'']
   \<and> snd (snd (read_crash_report_field [] sys_report ''comment'')) = []"
proof -
  have a: "readonly_report ''comment'' = Some readonly_item" by (simp add: readonly_report_def)
  have b: "CD_FLAG_ISEDITABLE \<notin> flags readonly_item" by (simp add: readonly_item_def)
  have c: "CD_FLAG_SYS \<notin> flags readonly_item" by (simp add: readonly_item_def)
  have a': "sys_report ''comment'' = Some sys_item" by (simp add: sys_report_def)
  have b': "CD_FLAG_ISEDITABLE \<notin> flags sys_item" by (simp add: sys_item_def)
  have c': "CD_FLAG_SYS \<in> flags sys_item" by (simp add: sys_item_def)
  have e: "new_content [] ''comment'' = None" by (simp add: new_content_def Let_def)
  from readonly_field_unchanged [of readonly_report "''comment''" readonly_item two_edits abrt_filenames, OF a b]
    readonly_field_unchanged [of sys_report "''comment''" sys_item two_edits abrt_filenames, OF a' b']
    readonly_field_unchanged [of sys_report "''comment''" sys_item "[]" abrt_filenames, OF a' b']
    a b c a' b' c' e two_edits_comment
  show ?thesis by (simp add: prod_eq_iff sys_message_def)
qed

text \<open>
  C7, the claim as stated fails: the comment field lacks \<open>CD_FLAG_ISEDITABLE\<close> and is
  flagged \<open>CD_FLAG_SYS\<close>; the edit of its block is dropped, and it is reported with an
  error message.
\<close>

theorem readonly_field_silent_counterexample:
  "sys_report ''comment'' = Some sys_item \<and> CD_FLAG_ISEDITABLE \<notin> flags sys_item
   \<and> read_crash_report_field two_edits sys_report ''comment''
       = (0, sys_report, [''Cannot update field comment because it is a system value''])"
  by (simp add: sys_report_def sys_item_def read_crash_report_field_def two_edits_def
      FIELD_SEP_def NEWLINE_def Let_def)

section \<open>Properties of the reporting workflow\<close>

text \<open>
  C2. The claim: from the events \<open>report_bugzilla\<close>, \<open>reportXYZ\<close>, \<open>foo\<close>, \<open>report\<close>,
  each on a line of its own, the reporters are \<open>report_bugzilla\<close> and \<open>report\<close>. The code
  tests \<open>events[6]\<close> against NUL and the underscore, so that a line \<open>report\<close> that a
  newline ends is not taken: the reporters are \<open>report_bugzilla\<close> alone. Without the
  last newline the line is at the end of the string and is taken.
\<close>

theorem report_events_misses_report_line:
  "report_reporters abrt_filenames
     [''Events'' \<mapsto> \<lparr>content = events_example, flags = {CD_FLAG_TXT}\<rparr>]
   = [''report_bugzilla'']
   \<and> report_events events_example = [''report_bugzilla'']
   \<and> report_events (''report_bugzilla'' @ [NEWLINE] @ ''report'') = [''report_bugzilla'', ''report'']"
  by (simp add: report_reporters_def get_crash_item_content_or_NULL_def abrt_filenames_def
      events_example_def Let_def deref_def NUL_def NEWLINE_def)

lemma load_system_settings_lookup:
  "load_system_settings ext rs m d = (if d \<in> set rs then Some (call_GetPluginSettings ext d) else m d)"
  by (induction rs arbitrary: m) auto

lemma merge_user_settings_eq: "merge_user_settings kv v = v ++ map_of (rev kv)"
  by (induction kv arbitrary: v) (auto simp: map_add_def fun_eq_iff split: option.splits)

lemma load_user_overrides_lookup:
  "distinct keys \<Longrightarrow> load_user_overrides ext h keys m d =
     (if d \<in> set keys then
        (case m d of None \<Rightarrow> None
         | Some v \<Rightarrow> Some (case load_conf_file ext (h @ ''/.abrt/'' @ d @ ''.conf'') of
                            None \<Rightarrow> v | Some kv \<Rightarrow> merge_user_settings kv v))
      else m d)"
proof (induction keys arbitrary: m)
  case Nil
  then show ?case by simp
next
  case (Cons k ks)
  then show ?case
    by (auto simp: Let_def split: option.splits)
qed

text \<open>
  C8. For every reporter of the list, the resolved settings are the settings of the daemon
  with the entries of the user's file laid over them: a key of the file has the value of
  the file, every other key keeps the value of the daemon, and without a file that loads
  the settings of the daemon are left as they are. (The entries of the file come from a
  hash table, so their keys differ and their order does not matter; for a list with a key
  twice the later entry would win, which is what \<open>map_of\<close> of the reversed list says.)
\<close>

theorem settings_layering:
  assumes "d \<in> set reporters"
  shows "get_reporter_plugin_settings ext reporters d =
    Some (case user_layer ext d of
            None \<Rightarrow> call_GetPluginSettings ext d
          | Some kv \<Rightarrow> call_GetPluginSettings ext d ++ map_of (rev kv))"
  using assms
  by (auto simp: get_reporter_plugin_settings_def user_layer_def Let_def
       load_system_settings_lookup load_user_overrides_lookup merge_user_settings_eq
       split: option.splits)

theorem settings_layering_witness:
  "get_reporter_plugin_settings layering_ext [''report_bugzilla'', ''report''] ''report_bugzilla''
     = Some [''Login'' \<mapsto> ''alice'', ''Password'' \<mapsto> [], ''Extra'' \<mapsto> ''x'']
   \<and> get_reporter_plugin_settings layering_ext [''report_bugzilla'', ''report''] ''report''
     = Some [''Login'' \<mapsto> [], ''Password'' \<mapsto> [], ''Extra'' \<mapsto> ''x'']"
  using settings_layering [of "''report_bugzilla''" "[''report_bugzilla'', ''report'']" layering_ext]
    settings_layering [of "''report''" "[''report_bugzilla'', ''report'']" layering_ext]
  by (simp add: user_layer_def layering_ext_def ok_ext_def fun_eq_iff)

lemma ask_yesno_sent: "ask_yesno ext q s = (b, s1) \<Longrightarrow> sent s1 = sent s \<and> plugins s1 = plugins s \<and> errors s1 = errors s \<and> reporters_settings s1 = reporters_settings s"
  by (auto simp: ask_yesno_def printf_def Let_def split: option.splits)

text \<open>
  C9. In the interactive loop, when the user has answered yes for a reporter, the
  settings of the reporter have \<open>RatingRequired\<close> with a value that \<open>string_to_bool\<close>
  takes as true, and the rating of the report is below 3, then the loop over this reporter
  alone returns the session \<open>rating_refused\<close>, and the loop over more reporters goes on
  from that session with the next one. In that session nothing has been sent for the
  reporter (\<open>sent\<close> is as it was), both counters are one up, and the output is the
  question, the refusal, and the debuginfo hint when the report has a package that is not
  empty. A report without the rating field has rating 4.
\<close>

theorem rating_gate:
  assumes yes: "ask_yesno ext (take 254 (''Report using '' @ it @ ''?'')) s = (True, s1)"
      and st: "reporters_settings s1 it = Some settings"
      and rr: "settings ''RatingRequired'' = Some rating_setting"
      and tb: "string_to_bool ext rating_setting"
      and ra: "report_rating ext fn crash_data = Some rating" and low: "rating < 3"
  shows "report_interactive ext fn crash_data rating [it] s
           = Some (rating_refused fn crash_data s1)
       \<and> report_interactive ext fn crash_data rating (it # rest) s
           = report_interactive ext fn crash_data rating rest (rating_refused fn crash_data s1)
       \<and> plugins (rating_refused fn crash_data s1) = plugins s + 1
       \<and> errors (rating_refused fn crash_data s1) = errors s + 1
       \<and> sent (rating_refused fn crash_data s1) = sent s
       \<and> out (rating_refused fn crash_data s1)
           = out s @ take 254 (''Report using '' @ it @ ''?'') @ '' [y/N]: ''
             @ ''Reporting disabled because the backtrace is unusable'' @ [NEWLINE]
             @ debuginfo_hint fn crash_data
       \<and> report_rating ext fn (crash_data(FILENAME_RATING fn := None)) = Some 4"
proof -
  have same: "sent s1 = sent s" "plugins s1 = plugins s" "errors s1 = errors s"
    using ask_yesno_sent [OF yes] by auto
  have o: "out s1 = out s @ take 254 (''Report using '' @ it @ ''?'') @ '' [y/N]: ''"
    using yes by (auto simp: ask_yesno_def printf_def Let_def split: option.splits simp del: take_append)
  have step: "report_interactive ext fn crash_data rating (it # tl) s
         = report_interactive ext fn crash_data rating tl (rating_refused fn crash_data s1)" for tl
    using yes st rr tb low
    by (cases "crash_data (FILENAME_PACKAGE fn)")
       (simp_all add: Let_def puts_def printf_def debuginfo_hint_def rating_refused_def
          get_crash_item_content_or_NULL_def)
  have r4: "report_rating ext fn (crash_data(FILENAME_RATING fn := None)) = Some 4"
    by (simp add: report_rating_def get_crash_item_content_or_NULL_def)
  show ?thesis
    using step [of "[]"] step [of rest] same o r4
    by (simp add: rating_refused_def)
qed


lemma fgets_read_numeral:
  "fgets_read (numeral k) (c # cs) =
     (if c = NEWLINE then ([c], cs)
      else (let (line, rest) = fgets_read (pred_numeral k) cs in (c # line, rest)))"
  by (simp add: numeral_eq_Suc)

lemma gate_yes: "ask_yesno ok_ext (take 254 (''Report using '' @ ''report_bugzilla'' @ ''?'')) gate_session
   = (True, gate_session\<lparr>out := ''Report using report_bugzilla? [y/N]: '', inp := []\<rparr>)"
  by (simp add: ask_yesno_def gate_session_def printf_def fgets_def fgets_read_numeral NEWLINE_def Let_def)


lemma gate_rating: "report_rating ok_ext abrt_filenames gate_report = Some 2"
  by (simp add: report_rating_def get_crash_item_content_or_NULL_def abrt_filenames_def gate_report_def ok_ext_def)

theorem rating_gate_witness:
  "report_interactive ok_ext abrt_filenames gate_report 2 [''report_bugzilla''] gate_session
   = Some (gate_session\<lparr>out := ''Report using report_bugzilla? [y/N]: ''
              @ ''Reporting disabled because the backtrace is unusable'' @ [NEWLINE]
              @ ''Please try to install debuginfo manually using the command: ''
              @ [CHR 0x22] @ ''debuginfo-install foo-1.0'' @ [CHR 0x22] @ '' and try again''
              @ [NEWLINE],
            inp := [], plugins := 1, errors := 1\<rparr>)"
proof -
  have st: "reporters_settings
              (gate_session\<lparr>out := ''Report using report_bugzilla? [y/N]: '', inp := []\<rparr>)
              ''report_bugzilla''
            = Some [''RatingRequired'' \<mapsto> ''yes'']" by (simp add: gate_session_def)
  have rr: "[''RatingRequired'' \<mapsto> ''yes''] ''RatingRequired'' = Some ''yes''" by simp
  have tb: "string_to_bool ok_ext ''yes''" by (simp add: ok_ext_def)
  have low: "(2::nat) < 3" by simp
  from rating_gate [OF gate_yes st rr tb gate_rating low, of "[]"]
  have "report_interactive ok_ext abrt_filenames gate_report 2 [''report_bugzilla''] gate_session
        = Some (rating_refused abrt_filenames gate_report
                 (gate_session\<lparr>out := ''Report using report_bugzilla? [y/N]: '', inp := []\<rparr>))"
    by blast
  then show ?thesis
    by (simp add: rating_refused_def debuginfo_hint_def abrt_filenames_def gate_report_def
        gate_session_def)
qed

section \<open>Properties of the user's settings\<close>

text \<open>
  C3. The claim: \<open>save_conf_file\<close> returns true when the write and the rename succeed,
  and false exactly when the parent directory cannot be made or the write or the rename
  fails. The code does the opposite on the rename: where every call succeeds it renames
  the temporary file to the settings file and returns false, and where \<open>rename\<close> fails
  (it returns -1) the settings file is not written and the function returns true.
\<close>

theorem save_conf_file_rename_inverted:
  "save_conf_file ok_ext settings_path [(''Login'', ''alice'')] Map.empty
     = (False, [settings_path \<mapsto> ''Login = '' @ [CHR 0x22] @ ''alice'' @ [CHR 0x22, NEWLINE]])
   \<and> save_conf_file (ok_ext\<lparr>rename_rc := (\<lambda>old new. - 1)\<rparr>) settings_path
       [(''Login'', ''alice'')] Map.empty
     = (True, [settings_path @ ''.tmp''
                 \<mapsto> ''Login = '' @ [CHR 0x22] @ ''alice'' @ [CHR 0x22, NEWLINE]])
   \<and> save_user_settings ok_ext
       \<lparr>user_settings = Some [(''Login'', ''alice'')], conf_path = Some settings_path\<rparr> Map.empty
     = (False, [settings_path \<mapsto> ''Login = '' @ [CHR 0x22] @ ''alice'' @ [CHR 0x22, NEWLINE]])"
  by (simp add: save_user_settings_def save_conf_file_def ok_ext_def settings_path_def
      create_parentdir_def deref_def Let_def conf_line_def NUL_def fun_eq_iff)

theorem save_conf_file_rename_inverted_witness:
  "\<not> fst (save_conf_file ok_ext settings_path [(''Login'', ''alice'')] Map.empty)
   \<and> fst (save_conf_file (ok_ext\<lparr>rename_rc := (\<lambda>old new. - 1)\<rparr>) settings_path
            [(''Login'', ''alice'')] Map.empty)"
  using save_conf_file_rename_inverted by simp

text \<open>
  C10. Before \<open>load_user_settings\<close> has been called both static variables are NULL, and
  \<open>save_user_settings\<close> returns true and leaves every file as it is.
\<close>

theorem save_unloaded_settings:
  "save_user_settings ext initial_user_settings fs = (True, fs)"
  by (simp add: save_user_settings_def initial_user_settings_def)

theorem save_unloaded_settings_witness:
  "save_user_settings ok_ext initial_user_settings [settings_path \<mapsto> ''kept'']
   = (True, [settings_path \<mapsto> ''kept''])"
  by (rule save_unloaded_settings)

end
